theory Spec2Isabelle
  imports Complex_Main
begin

section \<open>The MDB bus master (\<^verbatim>\<open>src/mdb/master.py\<close>)\<close>

text \<open>
  The class \<^verbatim>\<open>Master\<close> is embedded by explicit state passing. Every operation takes
  the master object and the world (the state of the channel adapter and the log of
  effects so far) and gives back its outcome together with the master and the world
  as the call leaves them, also when the call raises: Python keeps the attribute
  writes made before a \<^verbatim>\<open>raise\<close>.

  The collaborators imported by the module are not part of it and are parameters of the
  model: \<^verbatim>\<open>to_ascii\<close> and \<^verbatim>\<open>SETUP_TIME_SECONDS\<close> (record \<open>env\<close>), the
  \<^verbatim>\<open>USBHandler\<close> (record \<open>usb_handler\<close>: what each of its two methods answers
  in each adapter state) and the two peripheral drivers (record \<open>peripheral\<close>: when
  and how each of their coroutines completes). The effect log holds what the code of
  \<^verbatim>\<open>Master\<close> itself does, in program order; what a peripheral does inside one of
  its own coroutines is not part of it.
\<close>

subsection \<open>Exceptions and outcomes\<close>

datatype exn =
    AssertionError
  | AttributeError string
  | RuntimeError string
  | OtherError string

text \<open>The outcome of awaiting a coroutine of \<^verbatim>\<open>Master\<close>: it returns a value, raises, or
  never completes.\<close>

datatype 'a outcome = Returns 'a | Raises exn | Never

text \<open>A coroutine of a peripheral driver either completes at some step of the event loop,
  returning (\<open>Inr\<close>) or raising (\<open>Inl\<close>), or stays pending for ever.\<close>

datatype 'a completion = Completes nat "exn + 'a" | Pending

subsection \<open>The effect log\<close>

datatype periph = BillValidator | CoinAcceptor

datatype call = Initialize bool | Enable | Disable | Status | Run

datatype level = Debug | Info

datatype attr = Attr_usb_handler | Attr_bill_validator | Attr_coin_acceptor | Attr_initialized

datatype 'b event =
    Log level string
  | SetAttr attr
  | LockAcquire
  | LockRelease
  | UsbSend 'b
  | UsbSendread 'b string
  | Sleep real
  | Dispatch periph call

subsection \<open>Collaborators\<close>

text \<open>The two names imported from other modules: the encoder of the text of a command
  into what the adapter transmits (\<open>'b\<close>), taken as total, and the settle time.\<close>

record 'b env =
  to_ascii :: "string \<Rightarrow> 'b"
  SETUP_TIME_SECONDS :: real

text \<open>The channel adapter: \<^verbatim>\<open>send(data)\<close> and \<^verbatim>\<open>sendread(data, prefix)\<close>, each from the
  adapter's state \<open>'c\<close> to the state it leaves and either the exception it raises
  (\<open>Inl\<close>; a timeout is one) or what it returns (\<open>Inr\<close>).\<close>

record ('b, 'c) usb_handler =
  uh_send :: "'b \<Rightarrow> 'c \<Rightarrow> (exn + unit) \<times> 'c"
  uh_sendread :: "'b \<Rightarrow> string \<Rightarrow> 'c \<Rightarrow> (exn + string) \<times> 'c"

text \<open>A peripheral driver: how each of its five coroutines completes. \<^verbatim>\<open>initialize\<close>
  is given the master itself and the flag \<^verbatim>\<open>not bus_reset\<close>; only the flag varies, so
  only the flag is an argument here. A driver's coroutines are taken not to assign the
  attributes of the master they are given.\<close>

record 'v peripheral =
  p_initialize :: "bool \<Rightarrow> 'v completion"
  p_enable :: "'v completion"
  p_disable :: "'v completion"
  p_status :: "'v completion"
  p_run :: "'v completion"

subsection \<open>State\<close>

text \<open>The attributes \<^verbatim>\<open>usb_handler\<close>, \<^verbatim>\<open>bill_validator\<close> and \<^verbatim>\<open>coin_acceptor\<close> are
  only annotated in the class body: until \<^verbatim>\<open>initialize\<close> assigns them they do not exist
  (\<open>None\<close>), and reading one raises \<^verbatim>\<open>AttributeError\<close>.\<close>

record ('b, 'c, 'v) master =
  initialized :: bool
  usb_handler :: "('b, 'c) usb_handler option"
  bill_validator :: "'v peripheral option"
  coin_acceptor :: "'v peripheral option"

record ('b, 'c) world =
  chan :: 'c
  trace :: "'b event list"

definition emit :: "'b event \<Rightarrow> ('b, 'c) world \<Rightarrow> ('b, 'c) world" where
  "emit e w = w\<lparr>trace := trace w @ [e]\<rparr>"

text \<open>\<^verbatim>\<open>Master.__init__\<close>: a fresh lock, \<^verbatim>\<open>initialized = False\<close>, a logger.\<close>

definition init :: "('b, 'c, 'v) master" where
  "init = \<lparr>initialized = False, usb_handler = None, bill_validator = None,
           coin_acceptor = None\<rparr>"

subsection \<open>\<^verbatim>\<open>asyncio.gather\<close>\<close>

text \<open>Without \<^verbatim>\<open>return_exceptions\<close> the first child to raise (in order of completion)
  settles the gathered future with its exception at once; children that complete at the
  same step are taken in argument order, the order in which the loop runs their tasks.
  When no child raises, the future is settled once all children have returned, with their
  values in argument order.\<close>

fun first_raised :: "'a completion list \<Rightarrow> (nat \<times> exn) option" where
  "first_raised [] = None"
| "first_raised (Completes t (Inl e) # cs) =
     (case first_raised cs of
        None \<Rightarrow> Some (t, e)
      | Some (t', e') \<Rightarrow> if t' < t then Some (t', e') else Some (t, e))"
| "first_raised (_ # cs) = first_raised cs"

fun results :: "'a completion list \<Rightarrow> (exn + 'a) list option" where
  "results [] = Some []"
| "results (Pending # cs) = None"
| "results (Completes t r # cs) =
     (case results cs of None \<Rightarrow> None | Some rs \<Rightarrow> Some (r # rs))"

fun the_values :: "(exn + 'a) list \<Rightarrow> 'a list" where
  "the_values [] = []"
| "the_values (Inr v # rs) = v # the_values rs"
| "the_values (Inl e # rs) = the_values rs"

definition gather :: "'a completion list \<Rightarrow> 'a list outcome" where
  "gather cs =
     (case first_raised cs of
        Some (t, e) \<Rightarrow> Raises e
      | None \<Rightarrow> (case results cs of None \<Rightarrow> Never | Some rs \<Rightarrow> Returns (the_values rs)))"

text \<open>With \<^verbatim>\<open>return_exceptions=True\<close> an exception is a result like any other: the
  future is settled once every child has completed, with one entry per child in argument
  order.\<close>

definition gather_return_exceptions :: "'a completion list \<Rightarrow> (exn + 'a) list outcome" where
  "gather_return_exceptions cs =
     (case results cs of None \<Rightarrow> Never | Some rs \<Rightarrow> Returns rs)"


subsection \<open>\<^verbatim>\<open>send\<close> and \<^verbatim>\<open>sendread\<close>\<close>

definition send ::
  "'b env \<Rightarrow> ('b, 'c, 'v) master \<Rightarrow> string \<Rightarrow> ('b, 'c) world \<Rightarrow>
     unit outcome \<times> ('b, 'c, 'v) master \<times> ('b, 'c) world" where
  "send env m message w =
     (if \<not> initialized m then (Raises AssertionError, m, w)
      else
        let w1 = emit LockAcquire w in
        case usb_handler m of
          None \<Rightarrow> (Raises (AttributeError ''usb_handler''), m, emit LockRelease w1)
        | Some h \<Rightarrow>
            let b = to_ascii env message;
                (r, c) = uh_send h b (chan w1);
                w2 = emit LockRelease (emit (UsbSend b) (w1\<lparr>chan := c\<rparr>))
            in (case r of Inl e \<Rightarrow> Raises e | Inr u \<Rightarrow> Returns (), m, w2))"

definition sendread ::
  "'b env \<Rightarrow> ('b, 'c, 'v) master \<Rightarrow> string \<Rightarrow> string \<Rightarrow> ('b, 'c) world \<Rightarrow>
     string outcome \<times> ('b, 'c, 'v) master \<times> ('b, 'c) world" where
  "sendread env m message prefix w =
     (if \<not> initialized m then (Raises AssertionError, m, w)
      else
        let w1 = emit LockAcquire w in
        case usb_handler m of
          None \<Rightarrow> (Raises (AttributeError ''usb_handler''), m, emit LockRelease w1)
        | Some h \<Rightarrow>
            let b = to_ascii env message;
                (r, c) = uh_sendread h b prefix (chan w1);
                w2 = emit LockRelease (emit (UsbSendread b prefix) (w1\<lparr>chan := c\<rparr>))
            in (case r of Inl e \<Rightarrow> Raises e | Inr s \<Rightarrow> Returns s, m, w2))"

subsection \<open>\<^verbatim>\<open>initialize\<close>\<close>

text \<open>Lines 41 to 43: the two peripheral coroutines are created from the arguments of
  \<^verbatim>\<open>initialize\<close>, each with the master itself and \<^verbatim>\<open>not bus_reset\<close>, and gathered
  without \<^verbatim>\<open>return_exceptions\<close>; the list that \<^verbatim>\<open>gather\<close> returns is dropped.\<close>

definition initialize_peripherals ::
  "('b, 'c, 'v) master \<Rightarrow> 'v peripheral \<Rightarrow> 'v peripheral \<Rightarrow> bool \<Rightarrow> ('b, 'c) world \<Rightarrow>
     unit outcome \<times> ('b, 'c, 'v) master \<times> ('b, 'c) world" where
  "initialize_peripherals m bv ca bus_reset w =
     (let w1 = emit (Log Info ''Initializing MDB peripherals.'') w;
          w2 = emit (Dispatch CoinAcceptor (Initialize (\<not> bus_reset)))
                 (emit (Dispatch BillValidator (Initialize (\<not> bus_reset))) w1)
      in (case gather [p_initialize bv (\<not> bus_reset), p_initialize ca (\<not> bus_reset)] of
            Returns vs \<Rightarrow> Returns ()
          | Raises e \<Rightarrow> Raises e
          | Never \<Rightarrow> Never,
          m, w2))"

definition initialize ::
  "'b env \<Rightarrow> ('b, 'c, 'v) master \<Rightarrow> ('b, 'c) usb_handler \<Rightarrow> 'v peripheral \<Rightarrow> 'v peripheral \<Rightarrow>
     bool \<Rightarrow> ('b, 'c) world \<Rightarrow> unit outcome \<times> ('b, 'c, 'v) master \<times> ('b, 'c) world" where
  "initialize env m uh bv ca bus_reset w =
     (let w1 = emit (Log Info ''Initializing MDB Master.'') w;
          m1 = m\<lparr>usb_handler := Some uh\<rparr>;
          w2 = emit (SetAttr Attr_usb_handler) w1;
          m2 = m1\<lparr>bill_validator := Some bv\<rparr>;
          w3 = emit (SetAttr Attr_bill_validator) w2;
          m3 = m2\<lparr>coin_acceptor := Some ca\<rparr>;
          w4 = emit (SetAttr Attr_coin_acceptor) w3;
          w5 = emit (Log Debug ''Enabling Master driver.'') w4;
          w6 = emit LockAcquire w5;
          b = to_ascii env ''M,1\<newline>'';
          (status, c) = uh_sendread uh b ''m'' (chan w6);
          w7 = emit LockRelease (emit (UsbSendread b ''m'') (w6\<lparr>chan := c\<rparr>))
      in case status of
           Inl e \<Rightarrow> (Raises e, m3, w7)
         | Inr s \<Rightarrow>
             if s \<noteq> ''m,ACK''
             then (Raises (RuntimeError ''Unable to start master mode on MDB board.''), m3, w7)
             else
               let m4 = m3\<lparr>initialized := True\<rparr>;
                   w8 = emit (SetAttr Attr_initialized) w7
               in if bus_reset
                  then
                    let w9 = emit (Log Debug ''Bus-reseting peripherals.'') w8 in
                    case send env m4 ''R,RESET\<newline>'' w9 of
                      (Returns u, m5, w10) \<Rightarrow>
                        initialize_peripherals m5 bv ca bus_reset
                          (emit (Sleep (SETUP_TIME_SECONDS env + 1 / 10)) w10)
                    | (Raises e, m5, w10) \<Rightarrow> (Raises e, m5, w10)
                    | (Never, m5, w10) \<Rightarrow> (Never, m5, w10)
                  else initialize_peripherals m4 bv ca bus_reset w8)"

subsection \<open>The fan-out operations\<close>

text \<open>Each of them asserts the flag, logs, and evaluates the arguments of \<^verbatim>\<open>gather\<close>
  from left to right: it reads \<^verbatim>\<open>self.bill_validator\<close> and calls its method, then reads
  \<^verbatim>\<open>self.coin_acceptor\<close> and calls its method, so that a missing coin acceptor is found
  only after the bill validator's coroutine has been created. Then the two coroutines
  are gathered.\<close>

definition enable ::
  "('b, 'c, 'v) master \<Rightarrow> ('b, 'c) world \<Rightarrow>
     (exn + 'v) list outcome \<times> ('b, 'c, 'v) master \<times> ('b, 'c) world" where
  "enable m w =
     (if \<not> initialized m then (Raises AssertionError, m, w)
      else
        let w1 = emit (Log Info ''Enabling MDB peripherals.'') w in
        case bill_validator m of
          None \<Rightarrow> (Raises (AttributeError ''bill_validator''), m, w1)
        | Some bv \<Rightarrow>
            let w2 = emit (Dispatch BillValidator Enable) w1 in
            case coin_acceptor m of
              None \<Rightarrow> (Raises (AttributeError ''coin_acceptor''), m, w2)
            | Some ca \<Rightarrow>
                (gather_return_exceptions [p_enable bv, p_enable ca], m,
                 emit (Dispatch CoinAcceptor Enable) w2))"

definition disable ::
  "('b, 'c, 'v) master \<Rightarrow> ('b, 'c) world \<Rightarrow>
     (exn + 'v) list outcome \<times> ('b, 'c, 'v) master \<times> ('b, 'c) world" where
  "disable m w =
     (if \<not> initialized m then (Raises AssertionError, m, w)
      else
        let w1 = emit (Log Info ''Disabling MDB peripherals.'') w in
        case bill_validator m of
          None \<Rightarrow> (Raises (AttributeError ''bill_validator''), m, w1)
        | Some bv \<Rightarrow>
            let w2 = emit (Dispatch BillValidator Disable) w1 in
            case coin_acceptor m of
              None \<Rightarrow> (Raises (AttributeError ''coin_acceptor''), m, w2)
            | Some ca \<Rightarrow>
                (gather_return_exceptions [p_disable bv, p_disable ca], m,
                 emit (Dispatch CoinAcceptor Disable) w2))"

definition status ::
  "('b, 'c, 'v) master \<Rightarrow> ('b, 'c) world \<Rightarrow>
     (exn + 'v) list outcome \<times> ('b, 'c, 'v) master \<times> ('b, 'c) world" where
  "status m w =
     (if \<not> initialized m then (Raises AssertionError, m, w)
      else
        let w1 = emit (Log Info ''Getting MDB peripheral statuses.'') w in
        case bill_validator m of
          None \<Rightarrow> (Raises (AttributeError ''bill_validator''), m, w1)
        | Some bv \<Rightarrow>
            let w2 = emit (Dispatch BillValidator Status) w1 in
            case coin_acceptor m of
              None \<Rightarrow> (Raises (AttributeError ''coin_acceptor''), m, w2)
            | Some ca \<Rightarrow>
                (gather_return_exceptions [p_status bv, p_status ca], m,
                 emit (Dispatch CoinAcceptor Status) w2))"

definition run ::
  "('b, 'c, 'v) master \<Rightarrow> ('b, 'c) world \<Rightarrow>
     unit outcome \<times> ('b, 'c, 'v) master \<times> ('b, 'c) world" where
  "run m w =
     (if \<not> initialized m then (Raises AssertionError, m, w)
      else
        let w1 = emit (Log Info ''Running MDB peripherals.'') w in
        case bill_validator m of
          None \<Rightarrow> (Raises (AttributeError ''bill_validator''), m, w1)
        | Some bv \<Rightarrow>
            let w2 = emit (Dispatch BillValidator Run) w1 in
            case coin_acceptor m of
              None \<Rightarrow> (Raises (AttributeError ''coin_acceptor''), m, w2)
            | Some ca \<Rightarrow>
                (case gather [p_run bv, p_run ca] of
                   Returns vs \<Rightarrow> Returns ()
                 | Raises e \<Rightarrow> Raises e
                 | Never \<Rightarrow> Never,
                 m,
                 emit (Dispatch CoinAcceptor Run) w2))"

subsection \<open>Sequences of calls\<close>

text \<open>The operations that can follow \<^verbatim>\<open>initialize\<close>, and the state a sequence of them
  leaves behind, whatever each call's outcome.\<close>

datatype op = OpSend string | OpSendread string string | OpEnable | OpDisable | OpStatus | OpRun

fun exec ::
  "'b env \<Rightarrow> op \<Rightarrow> ('b, 'c, 'v) master \<times> ('b, 'c) world \<Rightarrow> ('b, 'c, 'v) master \<times> ('b, 'c) world" where
  "exec env (OpSend message) (m, w) = snd (send env m message w)"
| "exec env (OpSendread message prefix) (m, w) = snd (sendread env m message prefix w)"
| "exec env OpEnable (m, w) = snd (enable m w)"
| "exec env OpDisable (m, w) = snd (disable m w)"
| "exec env OpStatus (m, w) = snd (status m w)"
| "exec env OpRun (m, w) = snd (run m w)"

fun execs ::
  "'b env \<Rightarrow> op list \<Rightarrow> ('b, 'c, 'v) master \<times> ('b, 'c) world \<Rightarrow> ('b, 'c, 'v) master \<times> ('b, 'c) world" where
  "execs env [] s = s"
| "execs env (x # xs) s = execs env xs (exec env x s)"

subsection \<open>Reading the effect log\<close>


fun is_transmission :: "'b event \<Rightarrow> bool" where
  "is_transmission (UsbSend b) = True"
| "is_transmission (UsbSendread b p) = True"
| "is_transmission _ = False"



text \<open>The events a call appended to the log it was given.\<close>

definition new_events :: "('b, 'c) world \<Rightarrow> ('b, 'c) world \<Rightarrow> 'b event list" where
  "new_events w w' = drop (length (trace w)) (trace w')"


subsection \<open>Test doubles\<close>

text \<open>Concrete collaborators on which the properties below are evaluated. Text is its own
  ASCII encoding; the adapters count the calls they have served.\<close>

definition ascii_env :: "string env" where
  "ascii_env = \<lparr>to_ascii = (\<lambda>s. s), SETUP_TIME_SECONDS = 1 / 5\<rparr>"

definition acking_handler :: "(string, nat) usb_handler" where
  "acking_handler =
     \<lparr>uh_send = (\<lambda>b c. (Inr (), Suc c)),
      uh_sendread = (\<lambda>b p c. (Inr ''m,ACK'', Suc c))\<rparr>"

definition naking_handler :: "(string, nat) usb_handler" where
  "naking_handler =
     \<lparr>uh_send = (\<lambda>b c. (Inr (), Suc c)),
      uh_sendread = (\<lambda>b p c. (Inr ''x,NAK'', Suc c))\<rparr>"

definition flaky_handler :: "(string, nat) usb_handler" where
  "flaky_handler =
     \<lparr>uh_send = (\<lambda>b c. (Inr (), Suc c)),
      uh_sendread = (\<lambda>b p c. (if c = 0 then Inr ''x,NAK'' else Inr ''m,ACK'', Suc c))\<rparr>"


definition good_peripheral :: "string peripheral" where
  "good_peripheral =
     \<lparr>p_initialize = (\<lambda>skip. Completes (if skip then 1 else 4) (Inr ''None'')),
      p_enable = Completes 1 (Inr ''None''),
      p_disable = Completes 1 (Inr ''None''),
      p_status = Completes 2 (Inr ''idle''),
      p_run = Pending\<rparr>"

definition faulty_peripheral :: "string peripheral" where
  "faulty_peripheral =
     \<lparr>p_initialize = (\<lambda>skip. Completes 3 (Inl (OtherError ''TimeoutError''))),
      p_enable = Completes 3 (Inl (OtherError ''TimeoutError'')),
      p_disable = Completes 3 (Inl (OtherError ''TimeoutError'')),
      p_status = Completes 3 (Inl (OtherError ''TimeoutError'')),
      p_run = Completes 7 (Inl (OtherError ''TimeoutError''))\<rparr>"

definition idle_world :: "(string, nat) world" where
  "idle_world = \<lparr>chan = 0, trace = []\<rparr>"

definition ready_master :: "(string, nat, string) master" where
  "ready_master =
     \<lparr>initialized = True, usb_handler = Some acking_handler,
      bill_validator = Some faulty_peripheral, coin_acceptor = Some good_peripheral\<rparr>"

section \<open>Properties\<close>

subsection \<open>Guards\<close>

text \<open>
  C5. For every message, every prefix and every state of the channel, \<^verbatim>\<open>send\<close> and
  \<^verbatim>\<open>sendread\<close> on a master whose session is not established fail with the assertion
  fault (assertions are taken as enabled, the interpreter's default), and leave the
  master and the world as they were: nothing is handed to the channel adapter and the
  lock is not touched.
\<close>

theorem send_before_initialize:
  "\<not> initialized m \<Longrightarrow>
     send env m message w = (Raises AssertionError, m, w) \<and>
     sendread env m message prefix w = (Raises AssertionError, m, w) \<and>
     filter is_transmission (trace (snd (snd (send env m message w)))) =
       filter is_transmission (trace w) \<and>
     filter is_transmission (trace (snd (snd (sendread env m message prefix w)))) =
       filter is_transmission (trace w)"
  by (simp add: send_def sendread_def)

theorem send_before_initialize_witness:
  "\<not> initialized (init :: (string, nat, string) master) \<and>
   send ascii_env (init :: (string, nat, string) master) ''R,RESET\<newline>'' idle_world =
     (Raises AssertionError, init, idle_world) \<and>
   sendread ascii_env (init :: (string, nat, string) master) ''P,1\<newline>'' ''p'' idle_world =
     (Raises AssertionError, init, idle_world)"
  using send_before_initialize [of "init :: (string, nat, string) master" ascii_env
      "''R,RESET\<newline>''" idle_world]
    send_before_initialize [of "init :: (string, nat, string) master" ascii_env
      "''P,1\<newline>''" idle_world "''p''"]
  by (simp add: init_def)

subsection \<open>What \<^verbatim>\<open>initialize\<close> does, case by case\<close>

text \<open>The result of \<^verbatim>\<open>initialize\<close> in closed form for each way the handshake and the
  bus reset can go: the adapter answers something other than \<^verbatim>\<open>'m,ACK'\<close>, the adapter
  raises, the answer is \<^verbatim>\<open>'m,ACK'\<close> with no bus reset, and with a bus reset whose
  transmission fails or succeeds.\<close>

lemma initialize_refused:
  assumes "uh_sendread uh (to_ascii env ''M,1\<newline>'') ''m'' (chan w) = (Inr s, c)"
    and "s \<noteq> ''m,ACK''"
  shows "initialize env m uh bv ca bus_reset w =
    (Raises (RuntimeError ''Unable to start master mode on MDB board.''),
     m\<lparr>usb_handler := Some uh, bill_validator := Some bv, coin_acceptor := Some ca\<rparr>,
     w\<lparr>chan := c,
       trace := trace w @
         [Log Info ''Initializing MDB Master.'', SetAttr Attr_usb_handler,
          SetAttr Attr_bill_validator, SetAttr Attr_coin_acceptor,
          Log Debug ''Enabling Master driver.'', LockAcquire,
          UsbSendread (to_ascii env ''M,1\<newline>'') ''m'', LockRelease]\<rparr>)"
  using assms by (simp add: initialize_def emit_def Let_def)

lemma initialize_handshake_raised:
  assumes "uh_sendread uh (to_ascii env ''M,1\<newline>'') ''m'' (chan w) = (Inl e, c)"
  shows "initialize env m uh bv ca bus_reset w =
    (Raises e,
     m\<lparr>usb_handler := Some uh, bill_validator := Some bv, coin_acceptor := Some ca\<rparr>,
     w\<lparr>chan := c,
       trace := trace w @
         [Log Info ''Initializing MDB Master.'', SetAttr Attr_usb_handler,
          SetAttr Attr_bill_validator, SetAttr Attr_coin_acceptor,
          Log Debug ''Enabling Master driver.'', LockAcquire,
          UsbSendread (to_ascii env ''M,1\<newline>'') ''m'', LockRelease]\<rparr>)"
  using assms by (simp add: initialize_def emit_def Let_def)

lemma initialize_acknowledged_no_reset:
  assumes "uh_sendread uh (to_ascii env ''M,1\<newline>'') ''m'' (chan w) = (Inr ''m,ACK'', c)"
  shows "initialize env m uh bv ca False w =
    (case gather [p_initialize bv True, p_initialize ca True] of
       Returns vs \<Rightarrow> Returns () | Raises e \<Rightarrow> Raises e | Never \<Rightarrow> Never,
     m\<lparr>usb_handler := Some uh, bill_validator := Some bv, coin_acceptor := Some ca,
       initialized := True\<rparr>,
     w\<lparr>chan := c,
       trace := trace w @
         [Log Info ''Initializing MDB Master.'', SetAttr Attr_usb_handler,
          SetAttr Attr_bill_validator, SetAttr Attr_coin_acceptor,
          Log Debug ''Enabling Master driver.'', LockAcquire,
          UsbSendread (to_ascii env ''M,1\<newline>'') ''m'', LockRelease,
          SetAttr Attr_initialized,
          Log Info ''Initializing MDB peripherals.'',
          Dispatch BillValidator (Initialize True),
          Dispatch CoinAcceptor (Initialize True)]\<rparr>)"
  using assms by (simp add: initialize_def initialize_peripherals_def emit_def Let_def)

lemma initialize_acknowledged_reset_failed:
  assumes "uh_sendread uh (to_ascii env ''M,1\<newline>'') ''m'' (chan w) = (Inr ''m,ACK'', c)"
    and "uh_send uh (to_ascii env ''R,RESET\<newline>'') c = (Inl e, c')"
  shows "initialize env m uh bv ca True w =
    (Raises e,
     m\<lparr>usb_handler := Some uh, bill_validator := Some bv, coin_acceptor := Some ca,
       initialized := True\<rparr>,
     w\<lparr>chan := c',
       trace := trace w @
         [Log Info ''Initializing MDB Master.'', SetAttr Attr_usb_handler,
          SetAttr Attr_bill_validator, SetAttr Attr_coin_acceptor,
          Log Debug ''Enabling Master driver.'', LockAcquire,
          UsbSendread (to_ascii env ''M,1\<newline>'') ''m'', LockRelease,
          SetAttr Attr_initialized,
          Log Debug ''Bus-reseting peripherals.'', LockAcquire,
          UsbSend (to_ascii env ''R,RESET\<newline>''), LockRelease]\<rparr>)"
  using assms by (simp add: initialize_def send_def emit_def Let_def)

lemma initialize_acknowledged_reset:
  assumes "uh_sendread uh (to_ascii env ''M,1\<newline>'') ''m'' (chan w) = (Inr ''m,ACK'', c)"
    and "uh_send uh (to_ascii env ''R,RESET\<newline>'') c = (Inr u, c')"
  shows "initialize env m uh bv ca True w =
    (case gather [p_initialize bv False, p_initialize ca False] of
       Returns vs \<Rightarrow> Returns () | Raises e \<Rightarrow> Raises e | Never \<Rightarrow> Never,
     m\<lparr>usb_handler := Some uh, bill_validator := Some bv, coin_acceptor := Some ca,
       initialized := True\<rparr>,
     w\<lparr>chan := c',
       trace := trace w @
         [Log Info ''Initializing MDB Master.'', SetAttr Attr_usb_handler,
          SetAttr Attr_bill_validator, SetAttr Attr_coin_acceptor,
          Log Debug ''Enabling Master driver.'', LockAcquire,
          UsbSendread (to_ascii env ''M,1\<newline>'') ''m'', LockRelease,
          SetAttr Attr_initialized,
          Log Debug ''Bus-reseting peripherals.'', LockAcquire,
          UsbSend (to_ascii env ''R,RESET\<newline>''), LockRelease,
          Sleep (SETUP_TIME_SECONDS env + 1 / 10),
          Log Info ''Initializing MDB peripherals.'',
          Dispatch BillValidator (Initialize False),
          Dispatch CoinAcceptor (Initialize False)]\<rparr>)"
  using assms
  by (simp add: initialize_def initialize_peripherals_def send_def emit_def Let_def)

lemma initialize_cases:
  obtains (raised) e c where
      "uh_sendread uh (to_ascii env ''M,1\<newline>'') ''m'' (chan w) = (Inl e, c)"
  | (refused) s c where
      "uh_sendread uh (to_ascii env ''M,1\<newline>'') ''m'' (chan w) = (Inr s, c)" "s \<noteq> ''m,ACK''"
  | (reset_failed) c e c' where
      "uh_sendread uh (to_ascii env ''M,1\<newline>'') ''m'' (chan w) = (Inr ''m,ACK'', c)"
      "uh_send uh (to_ascii env ''R,RESET\<newline>'') c = (Inl e, c')"
  | (reset_sent) c u c' where
      "uh_sendread uh (to_ascii env ''M,1\<newline>'') ''m'' (chan w) = (Inr ''m,ACK'', c)"
      "uh_send uh (to_ascii env ''R,RESET\<newline>'') c = (Inr u, c')"
proof -
  obtain r c where r: "uh_sendread uh (to_ascii env ''M,1\<newline>'') ''m'' (chan w) = (r, c)"
    by (cases "uh_sendread uh (to_ascii env ''M,1\<newline>'') ''m'' (chan w)")
  obtain r' c' where r': "uh_send uh (to_ascii env ''R,RESET\<newline>'') c = (r', c')"
    by (cases "uh_send uh (to_ascii env ''R,RESET\<newline>'') c")
  show thesis
  proof (cases r)
    case (Inl e)
    with r raised show thesis by simp
  next
    case (Inr s)
    show thesis
    proof (cases "s = ''m,ACK''")
      case False
      with r Inr refused show thesis by simp
    next
      case True
      with r r' Inr reset_failed reset_sent show thesis
        by (cases r') simp_all
    qed
  qed
qed



lemma new_events_append [simp]:
  "new_events w (w'\<lparr>trace := trace w @ es\<rparr>) = es"
  by (simp add: new_events_def)

subsection \<open>The handshake\<close>




lemma initialize_acknowledged_master:
  assumes "uh_sendread uh (to_ascii env ''M,1\<newline>'') ''m'' (chan w) = (Inr ''m,ACK'', c)"
  shows "fst (snd (initialize env m uh bv ca bus_reset w)) =
    m\<lparr>usb_handler := Some uh, bill_validator := Some bv, coin_acceptor := Some ca,
      initialized := True\<rparr>"
proof (cases bus_reset)
  case False
  with assms show ?thesis by (simp add: initialize_acknowledged_no_reset)
next
  case True
  obtain r c' where r: "uh_send uh (to_ascii env ''R,RESET\<newline>'') c = (r, c')"
    by (cases "uh_send uh (to_ascii env ''R,RESET\<newline>'') c")
  with assms True show ?thesis
    by (cases r)
      (simp_all add: initialize_acknowledged_reset_failed initialize_acknowledged_reset)
qed

text \<open>
  C10, as amended. \<^verbatim>\<open>initialize\<close> stores the channel adapter and both peripheral
  references before the handshake is sent. After a refused handshake the call has raised
  the \<^verbatim>\<open>RuntimeError\<close>, the three attributes hold the arguments of the call, and the
  flag has the value it had before the call: the state differs from the state before the
  call in the three stored references only. The flag is what tells it from the state that
  the same call leaves when the handshake is acknowledged, and nothing else does.

  The claim as written has the flag alone tell the failed state from the state before
  the call. The counterexample is a fresh master after a refused handshake: its flag is
  what it was, and its \<^verbatim>\<open>usb_handler\<close> is not.
\<close>

theorem failed_initialize_state:
  assumes "uh_sendread uh (to_ascii env ''M,1\<newline>'') ''m'' (chan w) = (Inr s, c)"
    and "s \<noteq> ''m,ACK''"
  shows
    "fst (initialize env m uh bv ca bus_reset w) =
       Raises (RuntimeError ''Unable to start master mode on MDB board.'') \<and>
     fst (snd (initialize env m uh bv ca bus_reset w)) =
       m\<lparr>usb_handler := Some uh, bill_validator := Some bv, coin_acceptor := Some ca\<rparr> \<and>
     initialized (fst (snd (initialize env m uh bv ca bus_reset w))) = initialized m \<and>
     new_events w (snd (snd (initialize env m uh bv ca bus_reset w))) =
       [Log Info ''Initializing MDB Master.'', SetAttr Attr_usb_handler,
        SetAttr Attr_bill_validator, SetAttr Attr_coin_acceptor,
        Log Debug ''Enabling Master driver.'', LockAcquire,
        UsbSendread (to_ascii env ''M,1\<newline>'') ''m'', LockRelease] \<and>
     (\<forall>w' c' bus_reset'.
        uh_sendread uh (to_ascii env ''M,1\<newline>'') ''m'' (chan w') = (Inr ''m,ACK'', c') \<longrightarrow>
        fst (snd (initialize env m uh bv ca bus_reset' w')) =
          (fst (snd (initialize env m uh bv ca bus_reset w)))\<lparr>initialized := True\<rparr>)"
  using assms by (simp add: initialize_refused initialize_acknowledged_master)

theorem failed_initialize_state_witness:
  "uh_sendread flaky_handler (to_ascii ascii_env ''M,1\<newline>'') ''m'' (chan idle_world) =
     (Inr ''x,NAK'', 1) \<and> ''x,NAK'' \<noteq> ''m,ACK'' \<and>
   uh_sendread flaky_handler (to_ascii ascii_env ''M,1\<newline>'') ''m''
     (chan (idle_world\<lparr>chan := 1\<rparr>)) = (Inr ''m,ACK'', 2) \<and>
   fst (snd (initialize ascii_env init flaky_handler good_peripheral faulty_peripheral True
     idle_world)) =
     \<lparr>initialized = False, usb_handler = Some flaky_handler,
      bill_validator = Some good_peripheral, coin_acceptor = Some faulty_peripheral\<rparr> \<and>
   fst (snd (initialize ascii_env init flaky_handler good_peripheral faulty_peripheral True
     (idle_world\<lparr>chan := 1\<rparr>))) =
     \<lparr>initialized = True, usb_handler = Some flaky_handler,
      bill_validator = Some good_peripheral, coin_acceptor = Some faulty_peripheral\<rparr>"
proof -
  have nak: "uh_sendread flaky_handler (to_ascii ascii_env ''M,1\<newline>'') ''m'' (chan idle_world) =
     (Inr ''x,NAK'', 1)"
    by (simp add: flaky_handler_def idle_world_def)
  have ne: "''x,NAK'' \<noteq> ''m,ACK''" by simp
  have ack: "uh_sendread flaky_handler (to_ascii ascii_env ''M,1\<newline>'') ''m''
     (chan (idle_world\<lparr>chan := 1\<rparr>)) = (Inr ''m,ACK'', 2)"
    by (simp add: flaky_handler_def)
  note failed = failed_initialize_state [OF nak ne, of init good_peripheral faulty_peripheral True]
  from failed
  have first: "fst (snd (initialize ascii_env init flaky_handler good_peripheral
      faulty_peripheral True idle_world)) =
     \<lparr>initialized = False, usb_handler = Some flaky_handler,
      bill_validator = Some good_peripheral, coin_acceptor = Some faulty_peripheral\<rparr>"
    by (simp add: init_def)
  from failed [THEN conjunct2, THEN conjunct2, THEN conjunct2, THEN conjunct2, rule_format,
      OF ack, of True] first
  have second: "fst (snd (initialize ascii_env init flaky_handler good_peripheral
      faulty_peripheral True (idle_world\<lparr>chan := 1\<rparr>))) =
     \<lparr>initialized = True, usb_handler = Some flaky_handler,
      bill_validator = Some good_peripheral, coin_acceptor = Some faulty_peripheral\<rparr>"
    by simp
  from nak ne ack first second show ?thesis by blast
qed

theorem failed_initialize_state_counterexample:
  "initialized (fst (snd (initialize ascii_env init naking_handler good_peripheral
      good_peripheral True idle_world))) =
     initialized (init :: (string, nat, string) master) \<and>
   usb_handler (fst (snd (initialize ascii_env init naking_handler good_peripheral
      good_peripheral True idle_world))) \<noteq>
     usb_handler (init :: (string, nat, string) master)"
  by (simp add: initialize_def emit_def naking_handler_def init_def idle_world_def)




subsection \<open>Bus reset and settle delay\<close>









subsection \<open>Fan-out\<close>

lemma run_outcome:
  assumes "initialized m" "bill_validator m = Some bv" "coin_acceptor m = Some ca"
  shows "fst (run m w) =
    (case gather [p_run bv, p_run ca] of
       Returns vs \<Rightarrow> Returns () | Raises e \<Rightarrow> Raises e | Never \<Rightarrow> Never)"
  using assms by (simp add: run_def Let_def)

lemma gather_first_raises:
  assumes "a = Completes t (Inl e)"
    and "\<And>t' e'. b = Completes t' (Inl e') \<Longrightarrow> t \<le> t'"
  shows "gather [a, b] = Raises e"
proof (cases b)
  case Pending
  with assms show ?thesis by (simp add: gather_def)
next
  case (Completes t' r)
  show ?thesis
  proof (cases r)
    case (Inl e')
    with Completes assms(2) have "t \<le> t'" by simp
    with Completes Inl assms(1) show ?thesis by (simp add: gather_def)
  next
    case (Inr v)
    with Completes assms(1) show ?thesis by (simp add: gather_def)
  qed
qed

lemma gather_second_raises:
  assumes "b = Completes t (Inl e)"
    and "\<And>t' e'. a = Completes t' (Inl e') \<Longrightarrow> t < t'"
  shows "gather [a, b] = Raises e"
proof (cases a)
  case Pending
  with assms show ?thesis by (simp add: gather_def)
next
  case (Completes t' r)
  show ?thesis
  proof (cases r)
    case (Inl e')
    with Completes assms(2) have "t < t'" by simp
    with Completes Inl assms(1) show ?thesis by (simp add: gather_def)
  next
    case (Inr v)
    with Completes assms(1) show ?thesis by (simp add: gather_def)
  qed
qed

lemma gather_some_raises:
  assumes "a = Completes t (Inl e) \<or> b = Completes t (Inl e)"
  shows "\<exists>t' e'. gather [a, b] = Raises e' \<and>
    (a = Completes t' (Inl e') \<or> b = Completes t' (Inl e'))"
proof (cases "\<exists>ta ea. a = Completes ta (Inl ea)")
  case True
  then obtain ta ea where a: "a = Completes ta (Inl ea)" by blast
  show ?thesis
  proof (cases "\<exists>tb eb. b = Completes tb (Inl eb) \<and> tb < ta")
    case True
    then obtain tb eb where b: "b = Completes tb (Inl eb)" "tb < ta" by blast
    with a have "gather [a, b] = Raises eb" by (simp add: gather_def)
    with b show ?thesis by blast
  next
    case False
    then have le: "ta \<le> t'" if "b = Completes t' (Inl e')" for t' e'
      using that by force
    have "gather [a, b] = Raises ea"
      by (rule gather_first_raises [OF a]) (rule le)
    with a show ?thesis by blast
  qed
next
  case False
  with assms have b: "b = Completes t (Inl e)" by blast
  from False have less: "t < t'" if "a = Completes t' (Inl e')" for t' e'
    using that by blast
  have "gather [a, b] = Raises e"
    by (rule gather_second_raises [OF b]) (rule less)
  with b show ?thesis by blast
qed

text \<open>
  C7. On an established master with both peripherals registered: when a peripheral's
  \<^verbatim>\<open>run\<close> raises and the other one's has not raised before it (at the same step the
  bill validator, gathered first, goes first), \<^verbatim>\<open>Master.run\<close> raises that very
  exception; and whenever some peripheral's \<^verbatim>\<open>run\<close> raises, \<^verbatim>\<open>Master.run\<close> raises
  an exception raised by a peripheral's \<^verbatim>\<open>run\<close>, and so returns no list of outcomes,
  also when the other peripheral runs for ever.
\<close>

theorem run_propagates_failure:
  assumes "initialized m" and "bill_validator m = Some bv" and "coin_acceptor m = Some ca"
  shows
    "(\<forall>t e. p_run bv = Completes t (Inl e) \<and>
        (\<forall>t' e'. p_run ca = Completes t' (Inl e') \<longrightarrow> t \<le> t') \<longrightarrow>
        fst (run m w) = Raises e) \<and>
     (\<forall>t e. p_run ca = Completes t (Inl e) \<and>
        (\<forall>t' e'. p_run bv = Completes t' (Inl e') \<longrightarrow> t < t') \<longrightarrow>
        fst (run m w) = Raises e) \<and>
     (\<forall>t e. p_run bv = Completes t (Inl e) \<or> p_run ca = Completes t (Inl e) \<longrightarrow>
        (\<exists>t' e'. fst (run m w) = Raises e' \<and>
           (p_run bv = Completes t' (Inl e') \<or> p_run ca = Completes t' (Inl e'))))"
proof (intro conjI allI impI)
  fix t e
  assume "p_run bv = Completes t (Inl e) \<and>
    (\<forall>t' e'. p_run ca = Completes t' (Inl e') \<longrightarrow> t \<le> t')"
  then have "gather [p_run bv, p_run ca] = Raises e"
    by (intro gather_first_raises [of _ t]) auto
  then show "fst (run m w) = Raises e"
    by (simp add: run_outcome [OF assms])
next
  fix t e
  assume "p_run ca = Completes t (Inl e) \<and>
    (\<forall>t' e'. p_run bv = Completes t' (Inl e') \<longrightarrow> t < t')"
  then have "gather [p_run bv, p_run ca] = Raises e"
    by (intro gather_second_raises [of _ t]) auto
  then show "fst (run m w) = Raises e"
    by (simp add: run_outcome [OF assms])
next
  fix t e
  assume "p_run bv = Completes t (Inl e) \<or> p_run ca = Completes t (Inl e)"
  from gather_some_raises [OF this]
  obtain t' e' where "gather [p_run bv, p_run ca] = Raises e'"
    "p_run bv = Completes t' (Inl e') \<or> p_run ca = Completes t' (Inl e')" by blast
  then show "\<exists>t' e'. fst (run m w) = Raises e' \<and>
           (p_run bv = Completes t' (Inl e') \<or> p_run ca = Completes t' (Inl e'))"
    by (auto simp: run_outcome [OF assms])
qed

theorem run_propagates_failure_witness:
  "initialized ready_master \<and> bill_validator ready_master = Some faulty_peripheral \<and>
   coin_acceptor ready_master = Some good_peripheral \<and>
   p_run faulty_peripheral = Completes 7 (Inl (OtherError ''TimeoutError'')) \<and>
   p_run good_peripheral = Pending \<and>
   fst (run ready_master idle_world) = Raises (OtherError ''TimeoutError'') \<and>
   fst (run (ready_master\<lparr>bill_validator := Some good_peripheral,
               coin_acceptor := Some faulty_peripheral\<rparr>) idle_world) =
     Raises (OtherError ''TimeoutError'')"
proof -
  have m: "initialized ready_master" "bill_validator ready_master = Some faulty_peripheral"
    "coin_acceptor ready_master = Some good_peripheral"
    by (simp_all add: ready_master_def)
  have m': "initialized (ready_master\<lparr>bill_validator := Some good_peripheral,
               coin_acceptor := Some faulty_peripheral\<rparr>)"
    "bill_validator (ready_master\<lparr>bill_validator := Some good_peripheral,
               coin_acceptor := Some faulty_peripheral\<rparr>) = Some good_peripheral"
    "coin_acceptor (ready_master\<lparr>bill_validator := Some good_peripheral,
               coin_acceptor := Some faulty_peripheral\<rparr>) = Some faulty_peripheral"
    by (simp_all add: ready_master_def)
  have p: "p_run faulty_peripheral = Completes 7 (Inl (OtherError ''TimeoutError''))"
    "p_run good_peripheral = Pending"
    by (simp_all add: faulty_peripheral_def good_peripheral_def)
  from run_propagates_failure [OF m, of idle_world, THEN conjunct1, rule_format,
      of 7 "OtherError ''TimeoutError''"] p
  have first: "fst (run ready_master idle_world) = Raises (OtherError ''TimeoutError'')"
    by simp
  from run_propagates_failure [OF m', of idle_world, THEN conjunct2, THEN conjunct1,
      rule_format, of 7 "OtherError ''TimeoutError''"] p
  have second: "fst (run (ready_master\<lparr>bill_validator := Some good_peripheral,
               coin_acceptor := Some faulty_peripheral\<rparr>) idle_world) =
     Raises (OtherError ''TimeoutError'')"
    by simp
  from m p first second show ?thesis by simp
qed

lemma gather_return_exceptions_pair:
  "gather_return_exceptions [Completes t1 r1, Completes t2 r2] = Returns [r1, r2]"
  by (simp add: gather_return_exceptions_def)

lemma gather_return_exceptions_no_raise:
  "gather_return_exceptions cs \<noteq> Raises e"
  by (simp add: gather_return_exceptions_def split: option.splits)

text \<open>
  C2. On an established master with both peripherals registered, each of \<^verbatim>\<open>enable\<close>,
  \<^verbatim>\<open>disable\<close> and \<^verbatim>\<open>status\<close>, once both coroutines have completed, returns the list
  of exactly two outcomes, the bill validator's first and the coin acceptor's second,
  each being the exception that peripheral raised (\<open>Inl\<close>) or the value it returned
  (\<open>Inr\<close>); and none of the three calls ever raises, whatever the peripherals do.
\<close>

theorem fan_out_isolates_failures:
  assumes "initialized m" and "bill_validator m = Some bv" and "coin_acceptor m = Some ca"
  shows
    "(\<forall>t1 r1 t2 r2. p_enable bv = Completes t1 r1 \<and> p_enable ca = Completes t2 r2 \<longrightarrow>
        fst (enable m w) = Returns [r1, r2]) \<and>
     (\<forall>t1 r1 t2 r2. p_disable bv = Completes t1 r1 \<and> p_disable ca = Completes t2 r2 \<longrightarrow>
        fst (disable m w) = Returns [r1, r2]) \<and>
     (\<forall>t1 r1 t2 r2. p_status bv = Completes t1 r1 \<and> p_status ca = Completes t2 r2 \<longrightarrow>
        fst (status m w) = Returns [r1, r2]) \<and>
     (\<forall>e. fst (enable m w) \<noteq> Raises e \<and> fst (disable m w) \<noteq> Raises e \<and>
        fst (status m w) \<noteq> Raises e)"
proof -
  have en: "fst (enable m w) = gather_return_exceptions [p_enable bv, p_enable ca]"
    using assms by (simp add: enable_def Let_def)
  have di: "fst (disable m w) = gather_return_exceptions [p_disable bv, p_disable ca]"
    using assms by (simp add: disable_def Let_def)
  have st: "fst (status m w) = gather_return_exceptions [p_status bv, p_status ca]"
    using assms by (simp add: status_def Let_def)
  show ?thesis
    unfolding en di st
    by (simp add: gather_return_exceptions_pair gather_return_exceptions_no_raise)
qed

theorem fan_out_isolates_failures_witness:
  "initialized ready_master \<and> bill_validator ready_master = Some faulty_peripheral \<and>
   coin_acceptor ready_master = Some good_peripheral \<and>
   fst (enable ready_master idle_world) =
     Returns [Inl (OtherError ''TimeoutError''), Inr ''None''] \<and>
   fst (disable ready_master idle_world) =
     Returns [Inl (OtherError ''TimeoutError''), Inr ''None''] \<and>
   fst (status ready_master idle_world) =
     Returns [Inl (OtherError ''TimeoutError''), Inr ''idle'']"
proof -
  have m: "initialized ready_master" "bill_validator ready_master = Some faulty_peripheral"
    "coin_acceptor ready_master = Some good_peripheral"
    by (simp_all add: ready_master_def)
  from fan_out_isolates_failures [OF m, of idle_world] m show ?thesis
    by (simp add: faulty_peripheral_def good_peripheral_def)
qed

subsection \<open>The session flag\<close>

lemma exec_master: "fst (exec env x (m, w)) = m"
  by (cases x)
    (simp_all add: send_def sendread_def enable_def disable_def status_def run_def Let_def
      split: option.splits prod.splits)

lemma exec_no_write:
  "filter (\<lambda>e. e = SetAttr Attr_initialized) (trace (snd (exec env x (m, w)))) =
   filter (\<lambda>e. e = SetAttr Attr_initialized) (trace w)"
  by (cases x)
    (simp_all add: send_def sendread_def enable_def disable_def status_def run_def Let_def
      emit_def split: option.splits prod.splits)

lemma execs_master: "fst (execs env xs (m, w)) = m"
proof (induction xs arbitrary: w)
  case Nil
  show ?case by simp
next
  case (Cons x xs)
  have "exec env x (m, w) = (m, snd (exec env x (m, w)))"
    using exec_master [of env x m w] by (cases "exec env x (m, w)") simp
  with Cons.IH [of "snd (exec env x (m, w))"] show ?case by simp
qed

lemma execs_no_write:
  "filter (\<lambda>e. e = SetAttr Attr_initialized) (trace (snd (execs env xs (m, w)))) =
   filter (\<lambda>e. e = SetAttr Attr_initialized) (trace w)"
proof (induction xs arbitrary: w)
  case Nil
  show ?case by simp
next
  case (Cons x xs)
  have "exec env x (m, w) = (m, snd (exec env x (m, w)))"
    using exec_master [of env x m w] by (cases "exec env x (m, w)") simp
  with Cons.IH [of "snd (exec env x (m, w))"] exec_no_write [of env x m w]
  show ?case by simp
qed

lemma initialize_returns_established:
  assumes "fst (initialize env m uh bv ca bus_reset w) = Returns ()"
  shows "initialized (fst (snd (initialize env m uh bv ca bus_reset w)))"
proof (cases rule: initialize_cases [of uh env w])
  case (raised e c)
  with assms show ?thesis by (simp add: initialize_handshake_raised)
next
  case (refused s c)
  with assms show ?thesis by (simp add: initialize_refused)
next
  case (reset_failed c e c')
  with assms show ?thesis
    by (cases bus_reset)
      (simp_all add: initialize_acknowledged_reset_failed initialize_acknowledged_no_reset)
next
  case (reset_sent c u c')
  with assms show ?thesis
    by (cases bus_reset)
      (simp_all add: initialize_acknowledged_reset initialize_acknowledged_no_reset)
qed

lemma initialize_writes_flag_once:
  "filter (\<lambda>e. e = SetAttr Attr_initialized)
     (new_events w (snd (snd (initialize env m uh bv ca bus_reset w)))) =
   (if fst (uh_sendread uh (to_ascii env ''M,1\<newline>'') ''m'' (chan w)) = Inr ''m,ACK''
    then [SetAttr Attr_initialized] else []) \<and>
   UsbSendread (to_ascii env ''M,1\<newline>'') ''m'' \<in>
     set (takeWhile (\<lambda>e. e \<noteq> SetAttr Attr_initialized)
       (new_events w (snd (snd (initialize env m uh bv ca bus_reset w)))))"
proof (cases rule: initialize_cases [of uh env w])
  case (raised e c)
  then show ?thesis by (simp add: initialize_handshake_raised)
next
  case (refused s c)
  then show ?thesis by (simp add: initialize_refused)
next
  case (reset_failed c e c')
  then show ?thesis
    by (cases bus_reset)
      (simp_all add: initialize_acknowledged_reset_failed initialize_acknowledged_no_reset)
next
  case (reset_sent c u c')
  then show ?thesis
    by (cases bus_reset)
      (simp_all add: initialize_acknowledged_reset initialize_acknowledged_no_reset)
qed

text \<open>
  C8. One call of \<^verbatim>\<open>initialize\<close> writes the flag exactly once when the handshake is
  acknowledged and not at all otherwise, and the write comes after the handshake
  exchange. No sequence of \<^verbatim>\<open>send\<close>, \<^verbatim>\<open>sendread\<close>, \<^verbatim>\<open>enable\<close>, \<^verbatim>\<open>disable\<close>,
  \<^verbatim>\<open>status\<close> and \<^verbatim>\<open>run\<close> calls, whatever their outcomes, writes the flag or changes
  the master at all. So in every state reached by such calls after an \<^verbatim>\<open>initialize\<close>
  that returned, the session is established.
\<close>

theorem established_is_write_once:
  "filter (\<lambda>e. e = SetAttr Attr_initialized)
     (new_events w (snd (snd (initialize env m uh bv ca bus_reset w)))) =
     (if fst (uh_sendread uh (to_ascii env ''M,1\<newline>'') ''m'' (chan w)) = Inr ''m,ACK''
      then [SetAttr Attr_initialized] else []) \<and>
   UsbSendread (to_ascii env ''M,1\<newline>'') ''m'' \<in>
     set (takeWhile (\<lambda>e. e \<noteq> SetAttr Attr_initialized)
       (new_events w (snd (snd (initialize env m uh bv ca bus_reset w))))) \<and>
   fst (execs env ops (m', w')) = m' \<and>
   filter (\<lambda>e. e = SetAttr Attr_initialized) (trace (snd (execs env ops (m', w')))) =
     filter (\<lambda>e. e = SetAttr Attr_initialized) (trace w') \<and>
   (fst (initialize env m uh bv ca bus_reset w) = Returns () \<longrightarrow>
      initialized (fst (execs env ops (snd (initialize env m uh bv ca bus_reset w)))))"
proof -
  have "initialized (fst (execs env ops (snd (initialize env m uh bv ca bus_reset w))))"
    if "fst (initialize env m uh bv ca bus_reset w) = Returns ()"
    using initialize_returns_established [OF that]
      execs_master [of env ops "fst (snd (initialize env m uh bv ca bus_reset w))"
        "snd (snd (initialize env m uh bv ca bus_reset w))"]
    by simp
  with initialize_writes_flag_once [of w env m uh bv ca bus_reset]
    execs_master [of env ops m' w'] execs_no_write [of env ops m' w']
  show ?thesis by blast
qed

theorem established_is_write_once_witness:
  "fst (initialize ascii_env init acking_handler good_peripheral good_peripheral True
     idle_world) = Returns () \<and>
   initialized (fst (execs ascii_env
     [OpEnable, OpSend ''x'', OpRun, OpStatus, OpSendread ''y'' ''z'', OpDisable]
     (snd (initialize ascii_env init acking_handler good_peripheral good_peripheral True
        idle_world))))"
proof -
  have ok: "fst (initialize ascii_env init acking_handler good_peripheral good_peripheral True
     idle_world) = Returns ()"
    by (simp add: initialize_def initialize_peripherals_def send_def emit_def gather_def
        acking_handler_def good_peripheral_def ascii_env_def init_def idle_world_def)
  from established_is_write_once [of idle_world ascii_env init acking_handler good_peripheral
      good_peripheral True
      "[OpEnable, OpSend ''x'', OpRun, OpStatus, OpSendread ''y'' ''z'', OpDisable]"]
    ok
  show ?thesis by blast
qed

end
